theory Spec2Isabelle
  imports Main
begin

section \<open>Bytes and the Python primitives the code relies on\<close>

text \<open>
  A Python \<^verbatim>\<open>bytes\<close> value is a list of characters (a \<^typ>\<open>char\<close> is one byte).
  Python integers are unbounded: \<^typ>\<open>int\<close>.
\<close>

type_synonym bytes = "char list"

datatype error =
    StructError
  | ConnectionResetError
  | ConnectionClosedException
  | TypeError
  | AttributeError
  | PortNotOpenError
  | OSError

definition CR :: char where "CR = CHR 0x0D"
definition LF :: char where "LF = CHR 0x0A"
definition SUB :: char where "SUB = CHR 0x1A"

text \<open>The terminator bytes: \<^verbatim>\<open>\r\<close>, \<^verbatim>\<open>\n\<close> and 0x1A.\<close>

definition terminator :: "char \<Rightarrow> bool" where
  "terminator c = (c = CR \<or> c = LF \<or> c = SUB)"

text \<open>\<^verbatim>\<open>b.startswith(p)\<close> and \<^verbatim>\<open>b.endswith(s)\<close>.\<close>

definition startswith :: "bytes \<Rightarrow> bytes \<Rightarrow> bool" where
  "startswith b p = (take (length p) b = p)"

definition endswith :: "bytes \<Rightarrow> bytes \<Rightarrow> bool" where
  "endswith b s = (length s \<le> length b \<and> drop (length b - length s) b = s)"

text \<open>
  \<^verbatim>\<open>b[lo:hi]\<close>: a negative bound counts from the end, and both bounds are clamped to the
  length of the sequence; a slice never raises.
\<close>

definition slice_bound :: "nat \<Rightarrow> int \<Rightarrow> nat" where
  "slice_bound n i = (if i < 0 then nat (max 0 (int n + i)) else min (nat i) n)"

definition py_slice :: "bytes \<Rightarrow> int \<Rightarrow> int \<Rightarrow> bytes" where
  "py_slice b lo hi =
     (let l = slice_bound (length b) lo; h = slice_bound (length b) hi
      in take (h - l) (drop l b))"

text \<open>\<^verbatim>\<open>int.from_bytes(b, "big")\<close>, defined for every length (0 for the empty sequence).\<close>

definition from_bytes_big :: "bytes \<Rightarrow> int" where
  "from_bytes_big b = foldl (\<lambda>acc c. acc * 256 + of_char c) 0 b"

text \<open>
  The \<^verbatim>\<open>I\<close> field of \<^verbatim>\<open>struct.pack(">...")\<close>: four bytes, most significant first;
  \<^verbatim>\<open>struct.error\<close> when the value does not fit an unsigned 32-bit integer.
\<close>

definition pack_u32 :: "int \<Rightarrow> error + bytes" where
  "pack_u32 n =
     (if 0 \<le> n \<and> n \<le> 4294967295
      then Inr [char_of (n div 16777216), char_of (n div 65536), char_of (n div 256), char_of n]
      else Inl StructError)"

section \<open>eiscp.py\<close>

text \<open>
  \<^verbatim>\<open>struct.pack(f">4sIIcxxx{len(command)}sc", b"ISCP", 16, len(command) + 1, b"\x01", command, b"\r")\<close>
\<close>

definition build_eiscp_packet :: "bytes \<Rightarrow> error + bytes" where
  "build_eiscp_packet command =
     (case pack_u32 16 of
        Inl e \<Rightarrow> Inl e
      | Inr header_size \<Rightarrow>
          (case pack_u32 (int (length command) + 1) of
             Inl e \<Rightarrow> Inl e
           | Inr data_size \<Rightarrow>
               Inr (''ISCP'' @ header_size @ data_size @ [CHR 0x01, CHR 0x00, CHR 0x00, CHR 0x00]
                    @ command @ [CR])))"

text \<open>\<^verbatim>\<open>extract_eiscp_header\<close>: \<open>None\<close> is Python's \<^verbatim>\<open>None\<close> (the bare \<^verbatim>\<open>return\<close>).\<close>

definition extract_eiscp_header :: "bytes \<Rightarrow> (int \<times> int) option" where
  "extract_eiscp_header header =
     (if \<not> startswith header ''ISCP'' then None
      else
        let header_size = from_bytes_big (py_slice header 4 8);
            data_size = from_bytes_big (py_slice header 8 12)
        in Some (header_size, data_size))"

text \<open>
  \<^verbatim>\<open>extract_eiscp_message\<close>. A pair is always truthy, so \<^verbatim>\<open>not header_data\<close> holds
  exactly when the header function returned \<^verbatim>\<open>None\<close>.
\<close>

definition extract_eiscp_message :: "bytes \<Rightarrow> bytes option" where
  "extract_eiscp_message data =
     (case extract_eiscp_header data of
        None \<Rightarrow> None
      | Some (header_size, data_size) \<Rightarrow>
          Some (py_slice data header_size (header_size + data_size - 1)))"

section \<open>service.py: the inbound side of a transport\<close>

text \<open>
  What a connection reads is a finite script of events, consumed from the front:
  \<open>Data c\<close>, the byte \<open>c\<close> is ready to be read; \<open>Idle\<close>, one polling interval elapses with
  nothing to read; \<open>Eof\<close>, the peer has closed (the socket polls ready and \<^verbatim>\<open>recv\<close> returns
  \<^verbatim>\<open>b""\<close>, from then on). After the last event nothing arrives any more.
\<close>

datatype event = Data char | Idle | Eof

type_synonym channel = "event list"

datatype mode = Serial | TCP | EISCP

text \<open>\<^verbatim>\<open>select.select([self.sock], [], [], timeout)[0]\<close> and \<^verbatim>\<open>self.sock.recv(1)\<close> / \<^verbatim>\<open>self.ser.read(1)\<close>.\<close>

definition select_ready :: "channel \<Rightarrow> bool \<times> channel" where
  "select_ready ch =
     (case ch of [] \<Rightarrow> (False, []) | Idle # r \<Rightarrow> (False, r) | _ \<Rightarrow> (True, ch))"

definition recv1 :: "channel \<Rightarrow> bytes \<times> channel" where
  "recv1 ch = (case ch of Data c # r \<Rightarrow> ([c], r) | _ \<Rightarrow> ([], ch))"

text \<open>
  \<^verbatim>\<open>IscpSerialConnection.check_for_message\<close>: \<^verbatim>\<open>in_waiting\<close> is read at once; when it is zero
  the code sleeps 0.1 s (one polling interval) and reads it again.
\<close>

definition in_waiting :: "channel \<Rightarrow> bool" where
  "in_waiting ch = (case ch of Data c # r \<Rightarrow> True | _ \<Rightarrow> False)"

definition serial_check_for_message :: "channel \<Rightarrow> bool \<times> channel" where
  "serial_check_for_message ch =
     (if in_waiting ch then (True, ch)
      else
        let ch1 = (case ch of Idle # r \<Rightarrow> r | _ \<Rightarrow> ch)
        in if in_waiting ch1 then (True, ch1) else (False, ch1))"

definition check_for_message :: "mode \<Rightarrow> channel \<Rightarrow> bool \<times> channel" where
  "check_for_message m ch =
     (case m of Serial \<Rightarrow> serial_check_for_message ch | _ \<Rightarrow> select_ready ch)"

text \<open>\<^verbatim>\<open>_get_one_byte\<close>; the binary transport's is \<^verbatim>\<open>pass\<close> and returns \<^verbatim>\<open>None\<close> (falsy).\<close>

definition get_one_byte :: "mode \<Rightarrow> channel \<Rightarrow> bytes \<times> channel" where
  "get_one_byte m ch = (case m of EISCP \<Rightarrow> ([], ch) | _ \<Rightarrow> recv1 ch)"

text \<open>
  \<^verbatim>\<open>ReceiverConnection.get_message\<close>, the assembler of the delimited and serial transports.
  The loop returns \<open>(received_data, terminated)\<close>.
\<close>

function get_message_loop ::
  "mode \<Rightarrow> channel \<Rightarrow> bytes \<Rightarrow> bool \<Rightarrow> (error + bytes \<times> bool) \<times> channel" where
  "get_message_loop m ch received_data found_message =
     (case check_for_message m ch of
        (False, ch1) \<Rightarrow> (Inr (received_data, False), ch1)
      | (True, ch1) \<Rightarrow>
          (case get_one_byte m ch1 of
             (data, ch2) \<Rightarrow>
               if data = [] then (Inl ConnectionResetError, ch2)
               else if data \<in> {[CR], [LF], [SUB]} then
                 (if found_message then (Inr (received_data, True), ch2)
                  else get_message_loop m ch2 received_data found_message)
               else get_message_loop m ch2 (received_data @ data)
                      (if data = ''!'' then True else found_message)))"
  by pat_completeness auto
termination
proof (relation "measure (\<lambda>(m, ch, received_data, found_message). length ch)", goal_cases)
  case 1
  show ?case by simp
next
  case (2 m ch received_data found_message ready ch1 data ch2)
  then show ?case
    by (auto simp: check_for_message_def select_ready_def serial_check_for_message_def
        in_waiting_def get_one_byte_def recv1_def Let_def
        split: mode.splits list.splits event.splits if_splits)
next
  case (3 m ch received_data found_message ready ch1 data ch2)
  then show ?case
    by (auto simp: check_for_message_def select_ready_def serial_check_for_message_def
        in_waiting_def get_one_byte_def recv1_def Let_def
        split: mode.splits list.splits event.splits if_splits)
qed

declare get_message_loop.simps [simp del]

definition get_message :: "mode \<Rightarrow> channel \<Rightarrow> (error + bytes option) \<times> channel" where
  "get_message m ch =
     (case get_message_loop m ch [] False of
        (Inl e, ch1) \<Rightarrow> (Inl e, ch1)
      | (Inr (received_data, terminated), ch1) \<Rightarrow>
          (Inr (if terminated then Some received_data else None), ch1))"

section \<open>service.py: the binary transport's reader\<close>

text \<open>
  \<^verbatim>\<open>EiscpConnection._tcp_grab_bytes\<close>: one \<^verbatim>\<open>select\<close> with a 1-second timeout per byte;
  \<open>None\<close> as soon as one of them times out.
\<close>

fun tcp_grab_loop :: "nat \<Rightarrow> channel \<Rightarrow> bytes \<Rightarrow> bytes option \<times> channel" where
  "tcp_grab_loop 0 ch data = (Some data, ch)"
| "tcp_grab_loop (Suc n) ch data =
     (case select_ready ch of
        (False, ch1) \<Rightarrow> (None, ch1)
      | (True, ch1) \<Rightarrow> (case recv1 ch1 of (b, ch2) \<Rightarrow> tcp_grab_loop n ch2 (data @ b)))"

definition tcp_grab_bytes :: "int \<Rightarrow> channel \<Rightarrow> bytes option \<times> channel" where
  "tcp_grab_bytes num_bytes ch = tcp_grab_loop (nat num_bytes) ch []"

text \<open>
  The first loop of \<^verbatim>\<open>EiscpConnection.get_message\<close>: bytes are dropped until an \<open>I\<close> is read;
  the result is the header collected so far. \<^verbatim>\<open>not data\<close> holds for \<^verbatim>\<open>None\<close> and for \<^verbatim>\<open>b""\<close>.
\<close>

function eiscp_find_header :: "channel \<Rightarrow> (error + bytes) \<times> channel" where
  "eiscp_find_header ch =
     (case select_ready ch of
        (False, ch1) \<Rightarrow> (Inr [], ch1)
      | (True, ch1) \<Rightarrow>
          (case tcp_grab_bytes 1 ch1 of
             (data, ch2) \<Rightarrow>
               if data = Some ''I'' then (Inr ''I'', ch2)
               else if data = None \<or> data = Some [] then (Inl ConnectionClosedException, ch2)
               else eiscp_find_header ch2))"
  by pat_completeness auto
termination
proof (relation "measure length", goal_cases)
  case 1
  show ?case by simp
next
  case (2 ch ready ch1 data ch2)
  then show ?case
    by (auto simp: select_ready_def tcp_grab_bytes_def recv1_def
        split: list.splits event.splits if_splits)
qed

declare eiscp_find_header.simps [simp del]

text \<open>The \<^verbatim>\<open>while message.endswith(...)\<close> loop.\<close>

function strip_terminators :: "bytes \<Rightarrow> bytes" where
  "strip_terminators message =
     (if endswith message [CR] \<or> endswith message [LF] \<or> endswith message [SUB]
      then strip_terminators (butlast message) else message)"
  by pat_completeness auto
termination
  by (relation "measure length") (auto simp: endswith_def)

declare strip_terminators.simps [simp del]

text \<open>
  \<^verbatim>\<open>EiscpConnection.get_message\<close>. \<^verbatim>\<open>header += self._tcp_grab_bytes(15)\<close> adds \<^verbatim>\<open>None\<close> to a
  byte string when the read timed out, which raises \<^verbatim>\<open>TypeError\<close>. The result of reading the
  extra header bytes is not looked at.
\<close>

definition eiscp_get_message :: "channel \<Rightarrow> (error + bytes option) \<times> channel" where
  "eiscp_get_message ch =
     (case eiscp_find_header ch of
        (Inl e, ch1) \<Rightarrow> (Inl e, ch1)
      | (Inr header0, ch1) \<Rightarrow>
          (case tcp_grab_bytes 15 ch1 of
             (None, ch2) \<Rightarrow> (Inl TypeError, ch2)
           | (Some more, ch2) \<Rightarrow>
               (case extract_eiscp_header (header0 @ more) of
                  None \<Rightarrow> (Inr None, ch2)
                | Some (header_size, data_size) \<Rightarrow>
                    let ch3 = (if header_size > 16
                               then snd (tcp_grab_bytes (header_size - 16) ch2) else ch2)
                    in (case tcp_grab_bytes data_size ch3 of
                          (None, ch4) \<Rightarrow> (Inr None, ch4)
                        | (Some message, ch4) \<Rightarrow>
                            if message = [] then (Inr None, ch4)
                            else
                              let message = strip_terminators message
                              in if \<not> startswith message ''!1'' then (Inr None, ch4)
                                 else (Inr (Some message), ch4)))))"

section \<open>service.py: connections\<close>

text \<open>
  The state of one \<^verbatim>\<open>ReceiverConnection\<close>. \<open>handle\<close> is \<^verbatim>\<open>self.sock\<close> / \<^verbatim>\<open>self.ser\<close>:
  \<open>None\<close> for \<^verbatim>\<open>None\<close>, \<open>Some True\<close> for a connected socket or an open port, \<open>Some False\<close> for a
  socket that is not connected or a closed port. \<open>connect_results\<close> and \<open>write_results\<close> are
  the outcomes of the coming calls of \<^verbatim>\<open>connect\<close>/\<^verbatim>\<open>open\<close> and of \<^verbatim>\<open>sendall\<close>/\<^verbatim>\<open>write\<close>
  (success once the list is used up); \<open>inbound\<close> is what the connection will read. \<open>trace\<close>
  records what the connection did, oldest first. \<open>peer_reset\<close> holds for a socket on which a
  write has raised \<^verbatim>\<open>ConnectionResetError\<close>: the peer has reset the connection, and
  \<^verbatim>\<open>shutdown\<close> on such a socket raises \<^verbatim>\<open>OSError\<close> (not connected). On any other socket
  \<^verbatim>\<open>shutdown\<close> and \<^verbatim>\<open>close\<close> succeed.
\<close>

datatype outcome = Ok | Fail error

datatype action = Connect | Connect_failed | Close | Sleep nat | Write bytes | Write_failed bytes

record connection =
  mode :: mode
  connected :: bool
  handle :: "bool option"
  connect_results :: "outcome list"
  write_results :: "outcome list"
  inbound :: channel
  trace :: "action list"
  peer_reset :: bool

text \<open>\<^verbatim>\<open>__init__\<close>: no handle, not connected; nothing scripted, nothing done yet.\<close>

definition init_connection :: "mode \<Rightarrow> connection" where
  "init_connection m =
     \<lparr>mode = m, connected = False, handle = None, connect_results = [], write_results = [],
      inbound = [], trace = [], peer_reset = False\<rparr>"

definition next_outcome :: "outcome list \<Rightarrow> outcome" where
  "next_outcome rs = (case rs of [] \<Rightarrow> Ok | r # _ \<Rightarrow> r)"

text \<open>
  \<^verbatim>\<open>_connect_to_receiver\<close>. The socket variants create the socket when there is none and call
  \<^verbatim>\<open>connect\<close>; the serial variant creates the port object (which opens it) when there is none
  and opens it when it is closed, and has nothing to do on an open port. The exception is
  logged and raised again; \<^verbatim>\<open>self.connected = True\<close> is reached only without one. A socket
  that has just been created has not been reset.
\<close>

definition connect_to_receiver :: "connection \<Rightarrow> error option \<times> connection" where
  "connect_to_receiver c =
     (if mode c = Serial \<and> handle c = Some True
      then (None, c\<lparr>connected := True, trace := trace c @ [Connect]\<rparr>)
      else
        (case next_outcome (connect_results c) of
           Fail e \<Rightarrow>
             (Some e,
              c\<lparr>handle := (if mode c \<noteq> Serial \<and> handle c = None then Some False else handle c),
                connect_results := tl (connect_results c),
                trace := trace c @ [Connect_failed],
                peer_reset := (if handle c = None then False else peer_reset c)\<rparr>)
         | Ok \<Rightarrow>
             (None,
              c\<lparr>handle := Some True, connected := True,
                connect_results := tl (connect_results c),
                trace := trace c @ [Connect],
                peer_reset := (if handle c = None then False else peer_reset c)\<rparr>)))"

text \<open>
  \<^verbatim>\<open>_disconnect\<close>. The socket variants shut the socket down, close it, forget it and clear
  \<^verbatim>\<open>connected\<close>; when \<^verbatim>\<open>shutdown\<close> raises (the peer has reset the socket) none of the
  following statements runs. The serial variant closes the port when it is open and assigns
  nothing.
\<close>

definition disconnect :: "connection \<Rightarrow> error option \<times> connection" where
  "disconnect c =
     (case mode c of
        Serial \<Rightarrow>
          (if connected c then
             (case handle c of
                None \<Rightarrow> (Some AttributeError, c)
              | Some is_open \<Rightarrow>
                  if is_open then (None, c\<lparr>handle := Some False, trace := trace c @ [Close]\<rparr>)
                  else (None, c))
           else (None, c))
      | _ \<Rightarrow>
          (if connected c then
             (case handle c of
                None \<Rightarrow> (Some AttributeError, c)
              | Some _ \<Rightarrow>
                  if peer_reset c then (Some OSError, c)
                  else (None, c\<lparr>handle := None, connected := False,
                                trace := trace c @ [Close]\<rparr>))
           else (None, c)))"

text \<open>\<^verbatim>\<open>_prep_message_for_receiver\<close>.\<close>

definition prep_message_for_receiver :: "mode \<Rightarrow> bytes \<Rightarrow> error + bytes" where
  "prep_message_for_receiver m message =
     (case m of EISCP \<Rightarrow> build_eiscp_packet message | _ \<Rightarrow> Inr (message @ [CR]))"

text \<open>
  \<^verbatim>\<open>_send_message_to_receiver\<close>: \<^verbatim>\<open>self.sock.sendall(message)\<close> / \<^verbatim>\<open>self.ser.write(message)\<close>.
  Without a handle the attribute access fails; a closed port or unconnected socket refuses
  the write. A reset error on a socket marks the socket as reset by the peer.
\<close>

definition send_raw :: "bytes \<Rightarrow> connection \<Rightarrow> error option \<times> connection" where
  "send_raw wire c =
     (case handle c of
        None \<Rightarrow> (Some AttributeError, c)
      | Some False \<Rightarrow> (Some (if mode c = Serial then PortNotOpenError else OSError), c)
      | Some True \<Rightarrow>
          (case next_outcome (write_results c) of
             Fail e \<Rightarrow>
               (Some e, c\<lparr>write_results := tl (write_results c),
                          trace := trace c @ [Write_failed wire],
                          peer_reset := (if e = ConnectionResetError \<and> mode c \<noteq> Serial
                                         then True else peer_reset c)\<rparr>)
           | Ok \<Rightarrow>
               (None, c\<lparr>write_results := tl (write_results c),
                        trace := trace c @ [Write wire]\<rparr>)))"

definition sleep :: "nat \<Rightarrow> connection \<Rightarrow> connection" where
  "sleep n c = c\<lparr>trace := trace c @ [Sleep n]\<rparr>"

text \<open>\<^verbatim>\<open>ReceiverConnection.send_message_to_receiver\<close>.\<close>

definition send_message_to_receiver :: "bytes \<Rightarrow> connection \<Rightarrow> error option \<times> connection" where
  "send_message_to_receiver message c =
     (case (if \<not> connected c then connect_to_receiver c else (None, c)) of
        (Some e, c1) \<Rightarrow> (Some e, c1)
      | (None, c1) \<Rightarrow>
          (case prep_message_for_receiver (mode c1) message of
             Inl e \<Rightarrow> (Some e, c1)
           | Inr wire \<Rightarrow>
               (case send_raw wire c1 of
                  (r, c2) \<Rightarrow>
                    if r = Some ConnectionResetError then
                      (case disconnect (sleep 1 c2) of
                         (Some e, c3) \<Rightarrow> (Some e, c3)
                       | (None, c3) \<Rightarrow>
                           (case connect_to_receiver c3 of
                              (Some e, c4) \<Rightarrow> (Some e, c4)
                            | (None, c4) \<Rightarrow> send_raw wire c4))
                    else (r, c2))))"

section \<open>service.py: the listen loop\<close>

text \<open>
  \<^verbatim>\<open>check_for_message\<close> and \<^verbatim>\<open>get_message\<close> on a connection. Polling needs the handle:
  \<^verbatim>\<open>select\<close> on \<^verbatim>\<open>None\<close> raises \<^verbatim>\<open>TypeError\<close>, \<^verbatim>\<open>None.in_waiting\<close> raises
  \<^verbatim>\<open>AttributeError\<close>, and \<^verbatim>\<open>in_waiting\<close> of a closed serial port raises \<^verbatim>\<open>TypeError\<close> (the
  port has no file descriptor).
\<close>

definition conn_check_for_message :: "connection \<Rightarrow> (error + bool) \<times> connection" where
  "conn_check_for_message c =
     (case handle c of
        None \<Rightarrow> (Inl (if mode c = Serial then AttributeError else TypeError), c)
      | Some is_open \<Rightarrow>
          if mode c = Serial \<and> \<not> is_open then (Inl TypeError, c)
          else (case check_for_message (mode c) (inbound c) of
                  (ready, ch) \<Rightarrow> (Inr ready, c\<lparr>inbound := ch\<rparr>)))"

definition conn_get_message :: "connection \<Rightarrow> (error + bytes option) \<times> connection" where
  "conn_get_message c =
     (case (if mode c = EISCP then eiscp_get_message (inbound c)
            else get_message (mode c) (inbound c)) of
        (r, ch) \<Rightarrow> (r, c\<lparr>inbound := ch\<rparr>))"

text \<open>
  One pass through the body of \<^verbatim>\<open>while True\<close> in \<^verbatim>\<open>listen_forever\<close>. The callback works on
  a state of its own (the relay's is the list of listeners). The result \<open>Some e\<close> is an
  exception that leaves \<^verbatim>\<open>listen_forever\<close>, which ends the listener; only
  \<^verbatim>\<open>ConnectionResetError\<close> is handled, by disconnecting. A failed connect is followed by a
  sleep of one second and the next pass.
\<close>

definition listen_iteration ::
  "(bytes option \<Rightarrow> 's \<Rightarrow> error option \<times> 's) option \<Rightarrow> connection \<Rightarrow> 's
     \<Rightarrow> error option \<times> connection \<times> 's" where
  "listen_iteration message_callback c s =
     (case (if \<not> connected c then connect_to_receiver c else (None, c)) of
        (Some e, c1) \<Rightarrow> (None, sleep 1 c1, s)
      | (None, c1) \<Rightarrow>
          (case
             (case conn_check_for_message c1 of
                (Inl e, c2) \<Rightarrow> (Some e, c2, s)
              | (Inr ready, c2) \<Rightarrow>
                  if ready then
                    (case conn_get_message c2 of
                       (Inl e, c3) \<Rightarrow> (Some e, c3, s)
                     | (Inr message, c3) \<Rightarrow>
                         (case message_callback of
                            None \<Rightarrow> (None, c3, s)
                          | Some callback \<Rightarrow>
                              (case callback message s of (r, s') \<Rightarrow> (r, c3, s'))))
                  else (None, c2, s))
           of (r, c4, s') \<Rightarrow>
             if r = Some ConnectionResetError
             then (case disconnect c4 of (r', c5) \<Rightarrow> (r', c5, s'))
             else (r, c4, s')))"

section \<open>service.py: the relay\<close>

text \<open>
  The \<^verbatim>\<open>for listener in self.listeners[1:]\<close> loop of \<^verbatim>\<open>relay_message_to_secondary\<close>: there is
  no handler around the call, so the first exception leaves the loop. Besides the listeners
  the loop returns the indices (in \<^verbatim>\<open>self.listeners\<close>) of those it called, in the order of
  the calls.
\<close>

fun relay_loop ::
  "bytes \<Rightarrow> nat \<Rightarrow> connection list \<Rightarrow> error option \<times> connection list \<times> nat list" where
  "relay_loop message i [] = (None, [], [])"
| "relay_loop message i (listener # rest) =
     (case send_message_to_receiver message listener of
        (Some e, listener') \<Rightarrow> (Some e, listener' # rest, [i])
      | (None, listener') \<Rightarrow>
          (case relay_loop message (Suc i) rest of
             (r, rest', called) \<Rightarrow> (r, listener' # rest', i # called)))"

text \<open>
  \<^verbatim>\<open>relay_message_to_secondary\<close>, the primary's callback. The listen loop hands it whatever
  \<^verbatim>\<open>get_message\<close> returned; on \<^verbatim>\<open>None\<close> the call \<^verbatim>\<open>message.startswith\<close> raises
  \<^verbatim>\<open>AttributeError\<close>.
\<close>

definition relay_message_to_secondary ::
  "bytes option \<Rightarrow> connection list \<Rightarrow> error option \<times> connection list \<times> nat list" where
  "relay_message_to_secondary message listeners =
     (case message of
        None \<Rightarrow> (Some AttributeError, listeners, [])
      | Some msg \<Rightarrow>
          if startswith msg ''!1PWR'' then
            (case relay_loop msg 1 (drop 1 listeners) of
               (r, secondaries, called) \<Rightarrow> (r, take 1 listeners @ secondaries, called))
          else (None, listeners, []))"

section \<open>Properties of the framer\<close>

lemma from_bytes_big_4:
  "from_bytes_big [a, b, c, d] = ((of_char a * 256 + of_char b) * 256 + of_char c) * 256 + of_char d"
  by (simp add: from_bytes_big_def)

lemma be_digits:
  fixes n :: int
  assumes "0 \<le> n" "n \<le> 4294967295"
  shows "((n div 16777216 mod 256 * 256 + n div 65536 mod 256) * 256 + n div 256 mod 256) * 256 + n mod 256 = n"
proof -
  define a where "a = n div 256"
  define b where "b = a div 256"
  define c where "c = b div 256"
  have e1: "n div 65536 = b"
    using zdiv_zmult2_eq [of 256 n 256] by (simp add: a_def b_def)
  have e2: "n div 16777216 = c"
    using zdiv_zmult2_eq [of 65536 n 256] zdiv_zmult2_eq [of 256 a 256]
    by (simp add: a_def b_def c_def)
  have "c < 256" "0 \<le> c" using assms unfolding e2 [symmetric] by linarith+
  then have c: "c mod 256 = c" by simp
  have n: "n mod 256 = n - a * 256" unfolding a_def by (simp add: minus_div_mult_eq_mod)
  have a: "a mod 256 = a - b * 256" unfolding b_def by (simp add: minus_div_mult_eq_mod)
  have b: "b mod 256 = b - c * 256" unfolding c_def by (simp add: minus_div_mult_eq_mod)
  have "((c mod 256 * 256 + b mod 256) * 256 + a mod 256) * 256 + n mod 256 = n"
    unfolding c n a b by simp
  then show ?thesis
    by (simp only: e1 e2 a_def)
qed

lemma from_bytes_pack_u32:
  assumes "pack_u32 n = Inr bs"
  shows "from_bytes_big bs = n" and "length bs = 4"
proof -
  from assms have n: "0 \<le> n" "n \<le> 4294967295"
    and bs: "bs = [char_of (n div 16777216), char_of (n div 65536), char_of (n div 256), char_of n]"
    by (auto simp: pack_u32_def split: if_splits)
  show "length bs = 4" by (simp add: bs)
  show "from_bytes_big bs = n"
    unfolding bs from_bytes_big_4 of_char_of by (rule be_digits [OF n])
qed

lemma pack_u32_ok: "0 \<le> n \<Longrightarrow> n \<le> 4294967295 \<Longrightarrow> \<exists>bs. pack_u32 n = Inr bs"
  by (simp add: pack_u32_def)

lemma py_slice_nat:
  "py_slice b (int lo) (int hi) = take (min hi (length b) - min lo (length b)) (drop (min lo (length b)) b)"
  by (simp add: py_slice_def slice_bound_def Let_def)

lemma py_slice_append_mid:
  "lo = int (length xs) \<Longrightarrow> hi = int (length xs + length ys) \<Longrightarrow> py_slice (xs @ ys @ zs) lo hi = ys"
  by (simp only: py_slice_nat) simp

lemma drop_min_length: "drop (min k (length b)) b = drop k b"
  by (cases "k \<le> length b") (simp_all add: min_def)

lemma py_slice_length: "length (py_slice b lo hi) \<le> length b"
  by (simp add: py_slice_def Let_def)

lemma of_char_nonneg: "(0::int) \<le> of_char c"
  by (subst of_nat_of_char [symmetric]) simp

lemma foldl_from_bytes_nonneg:
  "0 \<le> acc \<Longrightarrow> 0 \<le> foldl (\<lambda>acc c. acc * 256 + of_char c) (acc::int) b"
  by (induction b arbitrary: acc) (simp_all add: of_char_nonneg)

lemma from_bytes_big_nonneg: "0 \<le> from_bytes_big b"
  by (simp add: from_bytes_big_def foldl_from_bytes_nonneg)

lemma header_of_frame:
  assumes "length hs = 4" "length ds = 4"
  shows "extract_eiscp_header (''ISCP'' @ hs @ ds @ rest) = Some (from_bytes_big hs, from_bytes_big ds)"
proof -
  have a: "py_slice (''ISCP'' @ hs @ (ds @ rest)) (int (length ''ISCP'')) (int (length ''ISCP'' + length hs)) = hs"
    by (rule py_slice_append_mid) simp_all
  have b: "py_slice ((''ISCP'' @ hs) @ ds @ rest) (int (length (''ISCP'' @ hs))) (int (length (''ISCP'' @ hs) + length ds)) = ds"
    by (rule py_slice_append_mid) simp_all
  from a b show ?thesis
    using assms by (simp add: extract_eiscp_header_def startswith_def)
qed

lemma build_oversize:
  "4294967295 < int (length c) + 1 \<Longrightarrow> build_eiscp_packet c = Inl StructError"
  by (simp add: build_eiscp_packet_def pack_u32_def)

lemma roundtrip_bounded:
  assumes "int (length c) + 1 \<le> 4294967295"
  shows "\<exists>p. build_eiscp_packet c = Inr p
           \<and> extract_eiscp_header p = Some (16, int (length c) + 1)
           \<and> extract_eiscp_message p = Some c"
proof -
  obtain hs where hs: "pack_u32 16 = Inr hs"
    using pack_u32_ok [of 16] by auto
  obtain ds where ds: "pack_u32 (int (length c) + 1) = Inr ds"
    using pack_u32_ok [of "int (length c) + 1"] assms by auto
  let ?flags = "[CHR 0x01, CHR 0x00, CHR 0x00, CHR 0x00]"
  let ?p = "''ISCP'' @ hs @ ds @ ?flags @ c @ [CR]"
  have p: "build_eiscp_packet c = Inr ?p"
    by (simp add: build_eiscp_packet_def hs ds)
  have len: "length hs = 4" "length ds = 4"
    using from_bytes_pack_u32(2) hs ds by blast+
  have hdr: "extract_eiscp_header ?p = Some (16, int (length c) + 1)"
    using header_of_frame [OF len] from_bytes_pack_u32(1) [OF hs] from_bytes_pack_u32(1) [OF ds]
    by simp
  have "py_slice ((''ISCP'' @ hs @ ds @ ?flags) @ c @ [CR]) 16 (16 + (int (length c) + 1) - 1) = c"
    by (rule py_slice_append_mid) (simp_all add: len)
  then have sl: "py_slice ?p 16 (16 + (int (length c) + 1) - 1) = c"
    by simp
  have "extract_eiscp_message ?p = Some c"
    unfolding extract_eiscp_message_def hdr using sl by simp
  with p hdr show ?thesis by blast
qed

text \<open>
  Claim C4 (as amended). For every command byte sequence \<open>c\<close> whose length plus one fits the
  unsigned 32-bit payload-length field, \<open>build_eiscp_packet c\<close> succeeds, the header decoded
  from the packet is \<open>(16, len c + 1)\<close> and the message extracted from it is exactly \<open>c\<close>.
  For every longer command \<open>build_eiscp_packet\<close> fails with \<^verbatim>\<open>struct.error\<close>, so the round trip
  does not hold for every non-empty command.
\<close>

theorem framer_roundtrip:
  "(int (length c) + 1 \<le> 4294967295 \<longrightarrow>
      (\<exists>p. build_eiscp_packet c = Inr p
           \<and> extract_eiscp_header p = Some (16, int (length c) + 1)
           \<and> extract_eiscp_message p = Some c))
   \<and> (4294967295 < int (length c) + 1 \<longrightarrow> build_eiscp_packet c = Inl StructError)"
  using roundtrip_bounded [of c] build_oversize [of c] by blast

theorem framer_roundtrip_witness:
  "(\<exists>p. build_eiscp_packet ''!1PWR01'' = Inr p
         \<and> extract_eiscp_header p = Some (16, int (length ''!1PWR01'') + 1)
         \<and> extract_eiscp_message p = Some ''!1PWR01'')
   \<and> build_eiscp_packet (replicate 4294967296 (CHR ''a'')) = Inl StructError"
proof -
  have small: "int (length ''!1PWR01'') + 1 \<le> 4294967295"
    by simp
  have big: "4294967295 < int (length (replicate 4294967296 (CHR ''a''))) + 1"
    by (simp only: length_replicate)
  from framer_roundtrip [of "''!1PWR01''"] small
  have one: "\<exists>p. build_eiscp_packet ''!1PWR01'' = Inr p
         \<and> extract_eiscp_header p = Some (16, int (length ''!1PWR01'') + 1)
         \<and> extract_eiscp_message p = Some ''!1PWR01''"
    by blast
  from framer_roundtrip [of "replicate 4294967296 (CHR ''a'')"] big
  have two: "build_eiscp_packet (replicate 4294967296 (CHR ''a'')) = Inl StructError"
    by blast
  from one two show ?thesis by (rule conjI)
qed

theorem framer_roundtrip_oversize_counterexample:
  "replicate 4294967295 (CHR ''a'') \<noteq> []
   \<and> \<not> (\<exists>p. build_eiscp_packet (replicate 4294967295 (CHR ''a'')) = Inr p
            \<and> extract_eiscp_header p = Some (16, int (length (replicate 4294967295 (CHR ''a''))) + 1)
            \<and> extract_eiscp_message p = Some (replicate 4294967295 (CHR ''a'')))"
proof -
  have "pack_u32 (int (length (replicate 4294967295 (CHR ''a''))) + 1) = Inl StructError"
    by (simp only: length_replicate) (simp add: pack_u32_def)
  moreover have "\<exists>hs. pack_u32 16 = Inr hs"
    by (simp add: pack_u32_def)
  ultimately have err: "build_eiscp_packet (replicate 4294967295 (CHR ''a'')) = Inl StructError"
    unfolding build_eiscp_packet_def by (auto simp only: sum.case)
  have ne: "replicate 4294967295 (CHR ''a'') \<noteq> []"
    by (simp only: replicate_empty)
  have neg: "\<not> (\<exists>p. build_eiscp_packet (replicate 4294967295 (CHR ''a'')) = Inr p
            \<and> extract_eiscp_header p = Some (16, int (length (replicate 4294967295 (CHR ''a''))) + 1)
            \<and> extract_eiscp_message p = Some (replicate 4294967295 (CHR ''a'')))"
    unfolding err by (simp only: sum.distinct simp_thms)
  from ne neg show ?thesis by (rule conjI)
qed

text \<open>
  Claim C9. For every byte sequence \<open>b\<close> that does not start with the four ASCII bytes
  \<open>ISCP\<close>, \<open>extract_eiscp_header b\<close> returns \<open>None\<close>.
\<close>

theorem malformed_header_none:
  "\<not> startswith b ''ISCP'' \<Longrightarrow> extract_eiscp_header b = None"
  by (simp add: extract_eiscp_header_def)

theorem malformed_header_none_witness:
  "\<not> startswith ''ISCQ0000'' ''ISCP'' \<and> extract_eiscp_header ''ISCQ0000'' = None"
  using malformed_header_none [of "''ISCQ0000''"] by (simp add: startswith_def)

lemma py_slice_take_drop:
  "lo \<le> hi \<Longrightarrow> py_slice b (int lo) (int hi) = take (hi - lo) (drop lo b)"
  by (auto simp: py_slice_nat min_def)

lemma header_fields:
  "startswith b ''ISCP'' \<Longrightarrow>
   extract_eiscp_header b =
     Some (from_bytes_big (take 4 (drop 4 b)), from_bytes_big (take 4 (drop 8 b)))"
proof -
  have a: "py_slice b (int 4) (int 8) = take (8 - 4) (drop 4 b)"
    by (rule py_slice_take_drop) simp
  have b: "py_slice b (int 8) (int 12) = take (12 - 8) (drop 8 b)"
    by (rule py_slice_take_drop) simp
  assume "startswith b ''ISCP''"
  with a b show ?thesis by (simp add: extract_eiscp_header_def)
qed

lemma message_slice:
  assumes "0 \<le> h" "0 \<le> d"
  shows "py_slice b h (h + d - 1) =
           (if h = 0 \<and> d = 0 then butlast b else take (nat (d - 1)) (drop (nat h) b))"
proof (cases "h = 0 \<and> d = 0")
  case True
  have "nat (max 0 (int n - 1)) = n - 1" for n :: nat
    by (cases n) simp_all
  with True show ?thesis
    by (simp add: py_slice_def slice_bound_def butlast_conv_take)
next
  case False
  show ?thesis
  proof (cases "d = 0")
    case True
    with False assms have "0 < h" by simp
    with True show ?thesis
      by (auto simp: py_slice_def slice_bound_def Let_def min_def)
  next
    case d: False
    with assms have "1 \<le> d" by simp
    have A: "py_slice b (int (nat h)) (int (nat h + nat (d - 1))) =
            take ((nat h + nat (d - 1)) - nat h) (drop (nat h) b)"
      by (intro py_slice_take_drop) simp
    have B: "int (nat h) = h" and C: "int (nat h + nat (d - 1)) = h + d - 1"
      using assms \<open>1 \<le> d\<close> by simp_all
    have "py_slice b h (h + d - 1) = take (nat (d - 1)) (drop (nat h) b)"
      using A unfolding B C by simp
    with False show ?thesis by (simp only: if_False)
  qed
qed

text \<open>
  Claim C10. For every byte sequence \<open>b\<close> starting with \<open>ISCP\<close> the header function returns the
  pair of non-negative integers read big-endian from whatever exists of bytes 4..7 and 8..11
  of \<open>b\<close> (so \<open>ISCP\<close> alone gives \<open>(0, 0)\<close> and \<open>ISCPab\<close> gives \<open>(24930, 0)\<close>), and the
  message function returns a byte string: \<open>data_size - 1\<close> bytes from offset \<open>header_size\<close>,
  cut off at the end of the input (all of the input but its last byte when both fields are
  0). When \<open>header_size + data_size - 1\<close> reaches or exceeds the length of the input, the
  result is what the input holds from offset \<open>header_size\<close> on: three payload bytes of an
  announced eight in the first example, nothing in the second. No error is signalled.
\<close>

theorem extraction_total:
  "(startswith b ''ISCP'' \<longrightarrow>
      extract_eiscp_header b =
        Some (from_bytes_big (take 4 (drop 4 b)), from_bytes_big (take 4 (drop 8 b)))
      \<and> 0 \<le> from_bytes_big (take 4 (drop 4 b)) \<and> 0 \<le> from_bytes_big (take 4 (drop 8 b))
      \<and> extract_eiscp_message b =
        Some (if from_bytes_big (take 4 (drop 4 b)) = 0 \<and> from_bytes_big (take 4 (drop 8 b)) = 0
              then butlast b
              else take (nat (from_bytes_big (take 4 (drop 8 b)) - 1))
                     (drop (nat (from_bytes_big (take 4 (drop 4 b)))) b))
      \<and> (int (length b)
            \<le> from_bytes_big (take 4 (drop 4 b)) + from_bytes_big (take 4 (drop 8 b)) - 1 \<longrightarrow>
          extract_eiscp_message b = Some (drop (nat (from_bytes_big (take 4 (drop 4 b)))) b)))
   \<and> extract_eiscp_header ''ISCP'' = Some (0, 0)
   \<and> extract_eiscp_header ''ISCPab'' = Some (24930, 0)
   \<and> extract_eiscp_message
        (''ISCP'' @ [CHR 0x00, CHR 0x00, CHR 0x00, CHR 0x10] @ [CHR 0x00, CHR 0x00, CHR 0x00, CHR 0x09]
           @ [CHR 0x01, CHR 0x00, CHR 0x00, CHR 0x00] @ ''!1P'') = Some ''!1P''
   \<and> extract_eiscp_message
        (''ISCP'' @ [CHR 0x00, CHR 0x00, CHR 0x00, CHR 0x10] @ [CHR 0x00, CHR 0x00, CHR 0x00, CHR 0x09])
        = Some []"
proof (intro conjI impI)
  assume sw: "startswith b ''ISCP''"
  define h where "h = from_bytes_big (take 4 (drop 4 b))"
  define d where "d = from_bytes_big (take 4 (drop 8 b))"
  show hd: "extract_eiscp_header b = Some (h, d)"
    unfolding h_def d_def by (rule header_fields [OF sw])
  show nn: "0 \<le> h" "0 \<le> d"
    by (simp_all add: h_def d_def from_bytes_big_nonneg)
  show m: "extract_eiscp_message b =
             Some (if h = 0 \<and> d = 0 then butlast b else take (nat (d - 1)) (drop (nat h) b))"
    by (simp add: extract_eiscp_message_def hd message_slice [OF nn])
  show "extract_eiscp_message b = Some (drop (nat h) b)" if "int (length b) \<le> h + d - 1"
  proof -
    from that nn have "\<not> (h = 0 \<and> d = 0)" by auto
    moreover from that nn have "length (drop (nat h) b) \<le> nat (d - 1)" by simp
    ultimately show ?thesis by (auto simp: m)
  qed
next
  show "extract_eiscp_header ''ISCP'' = Some (0, 0)"
    by (simp add: header_fields startswith_def from_bytes_big_def)
next
  show "extract_eiscp_header ''ISCPab'' = Some (24930, 0)"
    by (simp add: header_fields startswith_def from_bytes_big_def)
next
  show "extract_eiscp_message
        (''ISCP'' @ [CHR 0x00, CHR 0x00, CHR 0x00, CHR 0x10] @ [CHR 0x00, CHR 0x00, CHR 0x00, CHR 0x09]
           @ [CHR 0x01, CHR 0x00, CHR 0x00, CHR 0x00] @ ''!1P'') = Some ''!1P''"
    by (simp add: extract_eiscp_message_def header_fields startswith_def from_bytes_big_def
        py_slice_def slice_bound_def)
next
  show "extract_eiscp_message
        (''ISCP'' @ [CHR 0x00, CHR 0x00, CHR 0x00, CHR 0x10] @ [CHR 0x00, CHR 0x00, CHR 0x00, CHR 0x09])
        = Some []"
    by (simp add: extract_eiscp_message_def header_fields startswith_def from_bytes_big_def
        py_slice_def slice_bound_def)
qed

theorem extraction_total_witness:
  "extract_eiscp_header ''ISCPab'' =
     Some (from_bytes_big (take 4 (drop 4 ''ISCPab'')), from_bytes_big (take 4 (drop 8 ''ISCPab'')))
   \<and> from_bytes_big (take 4 (drop 4 ''ISCPab'')) = 24930
   \<and> from_bytes_big (take 4 (drop 8 ''ISCPab'')) = 0
   \<and> extract_eiscp_message ''ISCPab'' = Some []"
proof -
  have sw: "startswith ''ISCPab'' ''ISCP''" by (simp add: startswith_def)
  have h: "from_bytes_big (take 4 (drop 4 ''ISCPab'')) = 24930"
    and d: "from_bytes_big (take 4 (drop 8 ''ISCPab'')) = 0"
    by (simp_all add: from_bytes_big_def)
  from extraction_total [of "''ISCPab''"] sw
  have "extract_eiscp_header ''ISCPab'' =
          Some (from_bytes_big (take 4 (drop 4 ''ISCPab'')), from_bytes_big (take 4 (drop 8 ''ISCPab'')))"
    and "extract_eiscp_message ''ISCPab'' =
          Some (drop (nat (from_bytes_big (take 4 (drop 4 ''ISCPab'')))) ''ISCPab'')"
    unfolding h d by simp_all
  then show ?thesis unfolding h d by simp
qed

section \<open>Properties of the delimited and serial assembler\<close>

lemma get_message_loop_Nil:
  "get_message_loop m [] received_data found_message = (Inr (received_data, False), [])"
  by (subst get_message_loop.simps)
     (simp add: check_for_message_def select_ready_def serial_check_for_message_def in_waiting_def
        split: mode.splits)

lemma get_message_loop_Data:
  "m \<noteq> EISCP \<Longrightarrow>
   get_message_loop m (Data c # r) received_data found_message =
     (if terminator c then
        (if found_message then (Inr (received_data, True), r)
         else get_message_loop m r received_data found_message)
      else get_message_loop m r (received_data @ [c])
             (if c = CHR ''!'' then True else found_message))"
  by (subst get_message_loop.simps)
     (auto simp add: check_for_message_def select_ready_def serial_check_for_message_def
        in_waiting_def get_one_byte_def recv1_def terminator_def
        split: mode.splits)

lemma loop_before_marker:
  "m \<noteq> EISCP \<Longrightarrow> CHR ''!'' \<notin> set pre \<Longrightarrow>
   get_message_loop m (map Data pre @ rest) received_data False =
   get_message_loop m rest (received_data @ filter (\<lambda>c. \<not> terminator c) pre) False"
  by (induction pre arbitrary: received_data) (auto simp: get_message_loop_Data)

lemma loop_after_marker:
  "m \<noteq> EISCP \<Longrightarrow> \<forall>c\<in>set mid. \<not> terminator c \<Longrightarrow>
   get_message_loop m (map Data mid @ rest) received_data True =
   get_message_loop m rest (received_data @ mid) True"
  by (induction mid arbitrary: received_data) (auto simp: get_message_loop_Data)

lemma marker_not_terminator: "\<not> terminator (CHR ''!'')"
  by (simp add: terminator_def CR_def LF_def SUB_def)

lemma loop_message:
  assumes "m \<noteq> EISCP" "CHR ''!'' \<notin> set pre" "\<forall>c\<in>set mid. \<not> terminator c"
  shows "get_message_loop m (map Data (pre @ CHR ''!'' # mid) @ rest) [] False =
         get_message_loop m rest (filter (\<lambda>c. \<not> terminator c) pre @ CHR ''!'' # mid) True"
proof -
  have "get_message_loop m (map Data (pre @ CHR ''!'' # mid) @ rest) [] False =
        get_message_loop m (map Data pre @ (Data (CHR ''!'') # map Data mid @ rest)) [] False"
    by simp
  also have "\<dots> = get_message_loop m (Data (CHR ''!'') # map Data mid @ rest)
                    (filter (\<lambda>c. \<not> terminator c) pre) False"
    using loop_before_marker [OF assms(1,2)] by simp
  also have "\<dots> = get_message_loop m (map Data mid @ rest)
                    (filter (\<lambda>c. \<not> terminator c) pre @ [CHR ''!'']) True"
    using assms(1) by (simp add: get_message_loop_Data marker_not_terminator)
  also have "\<dots> = get_message_loop m rest
                    ((filter (\<lambda>c. \<not> terminator c) pre @ [CHR ''!'']) @ mid) True"
    by (rule loop_after_marker [OF assms(1,3)])
  finally show ?thesis by simp
qed

text \<open>
  Claim C5 (as amended). For every finite byte stream fed to the delimited or serial assembler:
  the assembled message consists of the non-terminator bytes read from the start of the
  stream, up to the first terminator byte after the first \<open>!\<close>; terminator bytes before the
  marker are skipped, so when only terminator bytes precede the first \<open>!\<close> the message begins
  at that marker. It ends at the first terminator after the marker, and what follows stays
  unread. When the stream is used up before a terminator arrives after the marker (or holds no
  marker at all), assembly ends and reports no message.
\<close>

theorem assembler_message:
  assumes "m \<noteq> EISCP" "CHR ''!'' \<notin> set pre" "\<forall>c\<in>set mid. \<not> terminator c"
  shows "(terminator t \<longrightarrow>
            get_message m (map Data (pre @ CHR ''!'' # mid @ [t]) @ rest) =
              (Inr (Some (filter (\<lambda>c. \<not> terminator c) pre @ CHR ''!'' # mid)), rest))
       \<and> (terminator t \<longrightarrow> (\<forall>c\<in>set pre. terminator c) \<longrightarrow>
            get_message m (map Data (pre @ CHR ''!'' # mid @ [t]) @ rest) =
              (Inr (Some (CHR ''!'' # mid)), rest))
       \<and> get_message m (map Data (pre @ CHR ''!'' # mid)) = (Inr None, [])
       \<and> get_message m (map Data pre) = (Inr None, [])"
proof -
  have msg: "get_message m (map Data (pre @ CHR ''!'' # mid @ [t]) @ rest) =
              (Inr (Some (filter (\<lambda>c. \<not> terminator c) pre @ CHR ''!'' # mid)), rest)"
    if t: "terminator t"
  proof -
    have "get_message_loop m (map Data (pre @ CHR ''!'' # mid @ [t]) @ rest) [] False =
          get_message_loop m (map Data (pre @ CHR ''!'' # mid) @ (Data t # rest)) [] False"
      by simp
    also have "\<dots> = get_message_loop m (Data t # rest)
                      (filter (\<lambda>c. \<not> terminator c) pre @ CHR ''!'' # mid) True"
      by (rule loop_message [OF assms])
    also have "\<dots> = (Inr (filter (\<lambda>c. \<not> terminator c) pre @ CHR ''!'' # mid, True), rest)"
      using assms(1) t by (simp add: get_message_loop_Data)
    finally show ?thesis by (simp add: get_message_def)
  qed
  have noise: "filter (\<lambda>c. \<not> terminator c) pre = []" if "\<forall>c\<in>set pre. terminator c"
    using that by (induction pre) auto
  have unterminated: "get_message m (map Data (pre @ CHR ''!'' # mid)) = (Inr None, [])"
    using loop_message [OF assms, of "[]"] by (simp add: get_message_def get_message_loop_Nil)
  have nomarker: "get_message m (map Data pre) = (Inr None, [])"
    using loop_before_marker [OF assms(1,2), of "[]" "[]"]
    by (simp add: get_message_def get_message_loop_Nil)
  from msg noise unterminated nomarker show ?thesis by simp
qed

theorem assembler_message_witness:
  "terminator CR
   \<and> get_message TCP (map Data ([CR, CR] @ CHR ''!'' # ''1PWR01'' @ [CR]) @ []) = (Inr (Some ''!1PWR01''), [])
   \<and> get_message TCP (map Data ([CR, CR] @ CHR ''!'' # ''1PWR01'')) = (Inr None, [])"
proof -
  have a: "TCP \<noteq> EISCP" by simp
  have b: "CHR ''!'' \<notin> set [CR, CR]" by (simp add: CR_def)
  have c: "\<forall>c\<in>set ''1PWR01''. \<not> terminator c" by (simp add: terminator_def CR_def LF_def SUB_def)
  have d: "terminator CR" "\<forall>c\<in>set [CR, CR]. terminator c" by (simp_all add: terminator_def)
  from assembler_message [OF a b c, of CR "[]"] a b c d show ?thesis by simp
qed

theorem assembler_leading_bytes_counterexample:
  "get_message TCP (map Data (''x!1PWR01'' @ [CR])) = (Inr (Some ''x!1PWR01''), [])
   \<and> ''x!1PWR01'' \<noteq> ''!1PWR01''"
  by (simp add: get_message_def get_message_loop_Data get_message_loop_Nil terminator_def
      CR_def LF_def SUB_def)

section \<open>Properties of the binary transport's reader\<close>

lemma select_ready_Data: "select_ready (Data c # r) = (True, Data c # r)"
  by (simp add: select_ready_def)

lemma tcp_grab_loop_data:
  "length bs = n \<Longrightarrow> tcp_grab_loop n (map Data bs @ rest) data = (Some (data @ bs), rest)"
  by (induction bs arbitrary: n data) (auto simp: select_ready_Data recv1_def)

lemma tcp_grab_bytes_data:
  "int (length bs) = n \<Longrightarrow> tcp_grab_bytes n (map Data bs @ rest) = (Some bs, rest)"
  using tcp_grab_loop_data [of bs "nat n" rest "[]"] by (auto simp: tcp_grab_bytes_def)

lemma tcp_grab_bytes_nonpos:
  "n \<le> 0 \<Longrightarrow> tcp_grab_bytes n ch = (Some [], ch)"
  by (simp add: tcp_grab_bytes_def)

lemma eiscp_find_header_skip:
  "CHR ''I'' \<notin> set junk \<Longrightarrow>
   eiscp_find_header (map Data junk @ Data (CHR ''I'') # rest) = (Inr ''I'', rest)"
proof (induction junk)
  case Nil
  show ?case
    by (subst eiscp_find_header.simps)
       (simp add: select_ready_Data tcp_grab_bytes_def recv1_def)
next
  case (Cons c junk)
  then have "c \<noteq> CHR ''I''" and IH: "eiscp_find_header (map Data junk @ Data (CHR ''I'') # rest) = (Inr ''I'', rest)"
    by auto
  then show ?case
    by (subst eiscp_find_header.simps)
       (simp add: select_ready_Data tcp_grab_bytes_def recv1_def)
qed

lemma endswith_single: "endswith message [c] \<longleftrightarrow> message \<noteq> [] \<and> last message = c"
proof (cases message rule: rev_cases)
  case Nil
  then show ?thesis by (simp add: endswith_def)
next
  case (snoc ys y)
  then show ?thesis by (auto simp: endswith_def)
qed

lemma strip_terminators_eq:
  "strip_terminators message = rev (dropWhile terminator (rev message))"
proof (induction message rule: rev_induct)
  case Nil
  show ?case
    by (subst strip_terminators.simps) (simp add: endswith_single)
next
  case (snoc c message)
  show ?case
  proof (cases "terminator c")
    case True
    then have "strip_terminators (message @ [c]) = strip_terminators message"
      by (subst strip_terminators.simps) (auto simp: endswith_single terminator_def)
    with True snoc show ?thesis by simp
  next
    case False
    then have "strip_terminators (message @ [c]) = message @ [c]"
      by (subst strip_terminators.simps) (auto simp: endswith_single terminator_def)
    with False show ?thesis by simp
  qed
qed


lemma eiscp_get_message_frame:
  assumes junk: "CHR ''I'' \<notin> set junk"
    and hs: "pack_u32 header_size = Inr hs" and ds: "pack_u32 data_size = Inr ds"
    and flags: "length flags = 4"
    and extra: "int (length extra) = max 0 (header_size - 16)"
    and payload: "int (length payload) = data_size"
  shows "eiscp_get_message
           (map Data (junk @ ''ISCP'' @ hs @ ds @ flags @ extra @ payload) @ rest) =
         (Inr (if startswith (strip_terminators payload) ''!1''
               then Some (strip_terminators payload) else None), rest)"
proof -
  let ?ch1 = "map Data (''SCP'' @ hs @ ds @ flags) @ map Data (extra @ payload) @ rest"
  have len: "length hs = 4" "length ds = 4"
    using from_bytes_pack_u32(2) hs ds by blast+
  have find: "eiscp_find_header (map Data (junk @ ''ISCP'' @ hs @ ds @ flags @ extra @ payload) @ rest)
                = (Inr ''I'', ?ch1)"
    using eiscp_find_header_skip [OF junk, of ?ch1] by simp
  have grab15: "tcp_grab_bytes 15 ?ch1 = (Some (''SCP'' @ hs @ ds @ flags), map Data (extra @ payload) @ rest)"
    by (rule tcp_grab_bytes_data) (simp add: len flags)
  have "extract_eiscp_header (''ISCP'' @ hs @ ds @ flags) = Some (from_bytes_big hs, from_bytes_big ds)"
    by (rule header_of_frame [OF len])
  then have hdr: "extract_eiscp_header (''I'' @ ''SCP'' @ hs @ ds @ flags) = Some (header_size, data_size)"
    using from_bytes_pack_u32(1) [OF hs] from_bytes_pack_u32(1) [OF ds] by simp
  have skip: "(if header_size > 16
               then snd (tcp_grab_bytes (header_size - 16) (map Data (extra @ payload) @ rest))
               else map Data (extra @ payload) @ rest) = map Data payload @ rest"
  proof (cases "header_size > 16")
    case True
    then have "tcp_grab_bytes (header_size - 16) (map Data extra @ (map Data payload @ rest))
                 = (Some extra, map Data payload @ rest)"
      using extra by (intro tcp_grab_bytes_data) simp
    with True show ?thesis by simp
  next
    case False
    with extra have "extra = []" by simp
    with False show ?thesis by simp
  qed
  have grabp: "tcp_grab_bytes data_size (map Data payload @ rest) = (Some payload, rest)"
    by (rule tcp_grab_bytes_data) (rule payload)
  have empty: "\<not> startswith (strip_terminators []) ''!1''"
    by (subst strip_terminators.simps) (simp add: endswith_def startswith_def)
  show ?thesis
    unfolding eiscp_get_message_def find
    by (simp only: prod.case sum.case grab15 option.case hdr Let_def skip grabp)
       (simp add: empty)
qed

text \<open>
  Claim C8. For every payload read in full from the binary transport (a frame with a valid
  header, its extra header bytes and all \<open>data_size\<close> payload bytes, after any bytes without an
  \<open>I\<close>), the reader strips all trailing terminator bytes and returns the stripped message if
  and only if it begins with \<open>!1\<close>; any other payload yields no message.
\<close>

theorem eiscp_accepts_only_prefixed:
  assumes "CHR ''I'' \<notin> set junk"
    and "pack_u32 header_size = Inr hs" and "pack_u32 data_size = Inr ds"
    and "length flags = 4"
    and "int (length extra) = max 0 (header_size - 16)"
    and "int (length payload) = data_size"
  shows "eiscp_get_message
           (map Data (junk @ ''ISCP'' @ hs @ ds @ flags @ extra @ payload) @ rest) =
         (Inr (if startswith (rev (dropWhile terminator (rev payload))) ''!1''
               then Some (rev (dropWhile terminator (rev payload))) else None), rest)"
  using eiscp_get_message_frame [OF assms] by (simp only: strip_terminators_eq)

theorem eiscp_accepts_only_prefixed_witness:
  "eiscp_get_message
     (map Data (''xx'' @ ''ISCP'' @ [CHR 0x00, CHR 0x00, CHR 0x00, CHR 0x12]
        @ [CHR 0x00, CHR 0x00, CHR 0x00, CHR 0x09] @ [CHR 0x01, CHR 0x00, CHR 0x00, CHR 0x00]
        @ ''ab'' @ (''!1PWR01'' @ [CR, LF])) @ [Idle]) = (Inr (Some ''!1PWR01''), [Idle])"
proof -
  have h: "pack_u32 18 = Inr [CHR 0x00, CHR 0x00, CHR 0x00, CHR 0x12]"
    and d: "pack_u32 9 = Inr [CHR 0x00, CHR 0x00, CHR 0x00, CHR 0x09]"
    by code_simp+
  have j: "CHR ''I'' \<notin> set ''xx''" by simp
  have f: "length [CHR 0x01, CHR 0x00, CHR 0x00, CHR 0x00] = 4" by simp
  have e: "int (length ''ab'') = max 0 (18 - 16)" by simp
  have p: "int (length (''!1PWR01'' @ [CR, LF])) = 9" by simp
  have t: "rev (dropWhile terminator (rev (''!1PWR01'' @ [CR, LF]))) = ''!1PWR01''"
    by (simp add: terminator_def CR_def LF_def SUB_def)
  show ?thesis
    using eiscp_accepts_only_prefixed [OF j h d f e p, of "[Idle]"]
    unfolding t by (simp add: startswith_def)
qed

text \<open>
  Claim C2 fails on the code. When the per-byte timeout fires while the fifteen remaining
  header bytes are read, \<^verbatim>\<open>_tcp_grab_bytes\<close> returns \<^verbatim>\<open>None\<close> and
  \<^verbatim>\<open>header += None\<close> raises \<^verbatim>\<open>TypeError\<close>: the read does not return "no message".
  Here the stream delivers \<open>ISCP\<close> and then falls silent.
\<close>

theorem eiscp_header_timeout_raises:
  "eiscp_get_message (map Data ''ISCP'' @ [Idle]) = (Inl TypeError, [])"
  by (simp add: eiscp_get_message_def eiscp_find_header_skip [of "[]", simplified]
      tcp_grab_bytes_def select_ready_def recv1_def eval_nat_numeral)

text \<open>
  A timeout among the extra header bytes goes unnoticed (the result of that read is dropped):
  the payload is read after it and a message can come back. A timeout among the payload
  bytes does end the read with no message.
\<close>

lemma eiscp_extra_header_timeout_ignored:
  "eiscp_get_message
     (map Data (''ISCP'' @ [CHR 0x00, CHR 0x00, CHR 0x00, CHR 0x11]
        @ [CHR 0x00, CHR 0x00, CHR 0x00, CHR 0x08] @ [CHR 0x01, CHR 0x00, CHR 0x00, CHR 0x00])
      @ [Idle] @ map Data (''!1PWR01'' @ [CR])) = (Inr (Some ''!1PWR01''), [])"
  by code_simp

lemma tcp_grab_loop_timeout:
  "length part < n \<Longrightarrow> tcp_grab_loop n (map Data part @ Idle # rest) data = (None, rest)"
proof (induction part arbitrary: n data)
  case Nil
  then obtain k where "n = Suc k" by (cases n) auto
  then show ?case by (simp add: select_ready_def)
next
  case (Cons c part)
  then obtain k where "n = Suc k" "length part < k" by (cases n) auto
  with Cons.IH show ?case by (simp add: select_ready_Data recv1_def)
qed

lemma eiscp_payload_timeout_none:
  assumes junk: "CHR ''I'' \<notin> set junk"
    and hs: "pack_u32 header_size = Inr hs" and ds: "pack_u32 data_size = Inr ds"
    and flags: "length flags = 4" and small: "header_size \<le> 16"
    and part: "int (length part) < data_size"
  shows "eiscp_get_message (map Data (junk @ ''ISCP'' @ hs @ ds @ flags @ part) @ Idle # rest)
           = (Inr None, rest)"
proof -
  let ?ch1 = "map Data (''SCP'' @ hs @ ds @ flags) @ map Data part @ Idle # rest"
  have len: "length hs = 4" "length ds = 4"
    using from_bytes_pack_u32(2) hs ds by blast+
  have find: "eiscp_find_header (map Data (junk @ ''ISCP'' @ hs @ ds @ flags @ part) @ Idle # rest)
                = (Inr ''I'', ?ch1)"
    using eiscp_find_header_skip [OF junk, of ?ch1] by simp
  have grab15: "tcp_grab_bytes 15 ?ch1 = (Some (''SCP'' @ hs @ ds @ flags), map Data part @ Idle # rest)"
    by (rule tcp_grab_bytes_data) (simp add: len flags)
  have "extract_eiscp_header (''ISCP'' @ hs @ ds @ flags) = Some (from_bytes_big hs, from_bytes_big ds)"
    by (rule header_of_frame [OF len])
  then have hdr: "extract_eiscp_header (''I'' @ ''SCP'' @ hs @ ds @ flags) = Some (header_size, data_size)"
    using from_bytes_pack_u32(1) [OF hs] from_bytes_pack_u32(1) [OF ds] by simp
  have grabp: "tcp_grab_bytes data_size (map Data part @ Idle # rest) = (None, rest)"
    unfolding tcp_grab_bytes_def using part by (intro tcp_grab_loop_timeout) linarith
  show ?thesis
    unfolding eiscp_get_message_def find
    using small by (simp only: prod.case sum.case grab15 option.case hdr Let_def) (simp add: grabp)
qed

section \<open>Properties of sending and disconnecting\<close>

lemma send_raw_open:
  "handle c = Some True \<Longrightarrow>
   send_raw wire c =
     (case next_outcome (write_results c) of
        Fail e \<Rightarrow>
          (Some e, c\<lparr>write_results := tl (write_results c), trace := trace c @ [Write_failed wire],
                     peer_reset := (if e = ConnectionResetError \<and> mode c \<noteq> Serial
                                    then True else peer_reset c)\<rparr>)
      | Ok \<Rightarrow> (None, c\<lparr>write_results := tl (write_results c), trace := trace c @ [Write wire]\<rparr>))"
  by (simp add: send_raw_def)

lemma socket_disconnect_after_reset:
  "mode c \<noteq> Serial \<Longrightarrow> connected c \<Longrightarrow> handle c \<noteq> None \<Longrightarrow> peer_reset c \<Longrightarrow>
   disconnect c = (Some OSError, c)"
  by (auto simp: disconnect_def split: mode.splits)

text \<open>
  On a socket variant a first write that fails with a reset error is never followed by a
  second one: after the sleep \<open>disconnect\<close> raises, before the reconnect and the retry.
\<close>

lemma socket_send_reset_no_retry:
  assumes "mode c \<noteq> Serial" "connected c" "handle c = Some True"
    and "prep_message_for_receiver (mode c) message = Inr wire"
    and "next_outcome (write_results c) = Fail ConnectionResetError"
  shows "send_message_to_receiver message c =
           (Some OSError,
            c\<lparr>write_results := tl (write_results c),
              trace := trace c @ [Write_failed wire, Sleep 1],
              peer_reset := True\<rparr>)"
proof -
  let ?c2 = "c\<lparr>write_results := tl (write_results c), trace := trace c @ [Write_failed wire],
               peer_reset := True\<rparr>"
  have w: "send_raw wire c = (Some ConnectionResetError, ?c2)"
    using assms by (simp add: send_raw_open)
  have d: "disconnect (sleep 1 ?c2) = (Some OSError, sleep 1 ?c2)"
    using assms by (intro socket_disconnect_after_reset) (simp_all add: sleep_def)
  show ?thesis
    using assms(2,4) by (simp add: send_message_to_receiver_def w d del: One_nat_def)
       (simp add: sleep_def)
qed

text \<open>
  Claim C7 fails on the code. A TCP connection is connected and the first write raises a
  reset error. The handler sleeps one second and calls \<^verbatim>\<open>_disconnect\<close>, whose
  \<^verbatim>\<open>sock.shutdown\<close> raises \<^verbatim>\<open>OSError\<close> on the socket the peer has reset: that error reaches the
  caller, there is no reconnect and the write is not made a second time.
\<close>

theorem send_reset_no_retry:
  "send_message_to_receiver ''!1PWR01''
     ((init_connection TCP)\<lparr>connected := True, handle := Some True,
        write_results := [Fail ConnectionResetError]\<rparr>) =
   (Some OSError,
    (init_connection TCP)\<lparr>connected := True, handle := Some True,
       trace := [Write_failed (''!1PWR01'' @ [CR]), Sleep 1], peer_reset := True\<rparr>)"
  by (simp add: send_message_to_receiver_def init_connection_def prep_message_for_receiver_def
      send_raw_def next_outcome_def sleep_def disconnect_def)

text \<open>
  Claim C3 fails on the code for the serial variant. \<^verbatim>\<open>IscpSerialConnection._disconnect\<close>
  closes the port and leaves \<^verbatim>\<open>connected\<close> set, whereas both socket variants clear it: after
  a forced disconnect the serial connection still counts as connected, and the listen loop
  (\<^verbatim>\<open>if not self.connected\<close>) does not reconnect.
\<close>

theorem serial_disconnect_stays_connected:
  "disconnect ((init_connection Serial)\<lparr>connected := True, handle := Some True\<rparr>) =
     (None, (init_connection Serial)\<lparr>connected := True, handle := Some False, trace := [Close]\<rparr>)"
  by (simp add: disconnect_def init_connection_def)

lemma socket_disconnect_clears_connected:
  "mode c \<noteq> Serial \<Longrightarrow> connected c \<Longrightarrow> handle c \<noteq> None \<Longrightarrow> \<not> peer_reset c \<Longrightarrow>
   fst (disconnect c) = None \<and> \<not> connected (snd (disconnect c)) \<and> handle (snd (disconnect c)) = None"
  by (auto simp: disconnect_def split: mode.splits)

section \<open>Properties of the relay\<close>

lemma relay_loop_first_failure:
  assumes "k < length ss"
    and "\<forall>j<k. fst (send_message_to_receiver msg (ss ! j)) = None"
    and "fst (send_message_to_receiver msg (ss ! k)) = Some e"
  shows "relay_loop msg i ss =
           (Some e, map (\<lambda>s. snd (send_message_to_receiver msg s)) (take (Suc k) ss) @ drop (Suc k) ss,
            [i..<i + Suc k])"
  using assms
proof (induction ss arbitrary: k i)
  case Nil
  then show ?case by simp
next
  case (Cons s ss)
  show ?case
  proof (cases k)
    case 0
    with Cons.prems(3) obtain s' where "send_message_to_receiver msg s = (Some e, s')"
      by (cases "send_message_to_receiver msg s") auto
    with 0 show ?thesis by simp
  next
    case (Suc k')
    from Cons.prems(2) Suc have "fst (send_message_to_receiver msg s) = None"
      by (metis nth_Cons_0 zero_less_Suc)
    then obtain s' where s': "send_message_to_receiver msg s = (None, s')"
      by (cases "send_message_to_receiver msg s") auto
    have "relay_loop msg (Suc i) ss =
            (Some e, map (\<lambda>s. snd (send_message_to_receiver msg s)) (take (Suc k') ss) @ drop (Suc k') ss,
             [Suc i..<Suc i + Suc k'])"
    proof (rule Cons.IH)
      show "k' < length ss" using Cons.prems(1) Suc by simp
      show "\<forall>j<k'. fst (send_message_to_receiver msg (ss ! j)) = None"
        using Cons.prems(2) Suc by (metis Suc_less_eq nth_Cons_Suc)
      show "fst (send_message_to_receiver msg (ss ! k')) = Some e"
        using Cons.prems(3) Suc by simp
    qed
    with s' Suc show ?thesis by (simp add: upt_conv_Cons)
  qed
qed

lemma relay_loop_all_ok:
  "\<forall>s\<in>set ss. fst (send_message_to_receiver msg s) = None \<Longrightarrow>
   relay_loop msg i ss =
     (None, map (\<lambda>s. snd (send_message_to_receiver msg s)) ss, [i..<i + length ss])"
proof (induction ss arbitrary: i)
  case Nil
  show ?case by simp
next
  case (Cons s ss)
  then obtain s' where s': "send_message_to_receiver msg s = (None, s')"
    by (cases "send_message_to_receiver msg s") auto
  have u: "[i..<i + length (s # ss)] = i # [Suc i..<Suc i + length ss]"
    by (simp add: upt_conv_Cons del: upt_Suc)
  from Cons.prems have "\<forall>s\<in>set ss. fst (send_message_to_receiver msg s) = None"
    by simp
  then have "relay_loop msg (Suc i) ss =
     (None, map (\<lambda>s. snd (send_message_to_receiver msg s)) ss, [Suc i..<Suc i + length ss])"
    by (rule Cons.IH)
  with s' show ?case unfolding u by simp
qed

lemma send_connected_ok:
  assumes "connected c" "handle c = Some True" "next_outcome (write_results c) = Ok"
    and "prep_message_for_receiver (mode c) message = Inr wire"
  shows "send_message_to_receiver message c =
           (None, c\<lparr>write_results := tl (write_results c), trace := trace c @ [Write wire]\<rparr>)"
  using assms by (simp add: send_message_to_receiver_def send_raw_def)

text \<open>
  Claim C1 (as amended). When the relay forwards a power message and the send to one secondary
  fails while the sends before it succeeded, the exception leaves the handler: the handler's
  result is that error, the secondaries up to the failing one have been called in list order,
  and the secondaries after it are left untouched: nothing is sent to them.
\<close>

theorem relay_stops_at_first_failure:
  assumes "startswith msg ''!1PWR''" and "k < length ss"
    and "\<forall>j<k. fst (send_message_to_receiver msg (ss ! j)) = None"
    and "fst (send_message_to_receiver msg (ss ! k)) = Some e"
  shows "relay_message_to_secondary (Some msg) (p # ss) =
           (Some e,
            p # map (\<lambda>s. snd (send_message_to_receiver msg s)) (take (Suc k) ss) @ drop (Suc k) ss,
            [1..<k + 2])"
  using assms(1) relay_loop_first_failure [OF assms(2-4), of 1]
  by (simp add: relay_message_to_secondary_def)

theorem relay_stops_at_first_failure_witness:
  "relay_message_to_secondary (Some ''!1PWR01'')
     [init_connection EISCP, init_connection TCP,
      (init_connection TCP)\<lparr>connect_results := [Fail OSError]\<rparr>, init_connection Serial] =
   (Some OSError,
    [init_connection EISCP,
     (init_connection TCP)\<lparr>connected := True, handle := Some True,
        trace := [Connect, Write (''!1PWR01'' @ [CR])]\<rparr>,
     (init_connection TCP)\<lparr>handle := Some False, trace := [Connect_failed]\<rparr>,
     init_connection Serial],
    [1, 2])"
proof -
  let ?ss = "[init_connection TCP, (init_connection TCP)\<lparr>connect_results := [Fail OSError]\<rparr>,
              init_connection Serial]"
  have ok: "send_message_to_receiver ''!1PWR01'' (init_connection TCP) =
              (None, (init_connection TCP)\<lparr>connected := True, handle := Some True,
                 trace := [Connect, Write (''!1PWR01'' @ [CR])]\<rparr>)"
    by (simp add: send_message_to_receiver_def init_connection_def connect_to_receiver_def
        next_outcome_def prep_message_for_receiver_def send_raw_def)
  have bad: "send_message_to_receiver ''!1PWR01'' ((init_connection TCP)\<lparr>connect_results := [Fail OSError]\<rparr>) =
              (Some OSError, (init_connection TCP)\<lparr>handle := Some False, trace := [Connect_failed]\<rparr>)"
    by (simp add: send_message_to_receiver_def init_connection_def connect_to_receiver_def
        next_outcome_def)
  have a: "startswith ''!1PWR01'' ''!1PWR''" by (simp add: startswith_def)
  have b: "(1::nat) < length ?ss" by simp
  have c: "\<forall>j<1. fst (send_message_to_receiver ''!1PWR01'' (?ss ! j)) = None"
    by (simp add: ok)
  have d: "fst (send_message_to_receiver ''!1PWR01'' (?ss ! 1)) = Some OSError"
    by (simp add: bad)
  have e: "[1..<1 + 2] = [1, 2::nat]" by (simp add: upt_conv_Cons)
  show ?thesis
    using relay_stops_at_first_failure [OF a b c d, of "init_connection EISCP"]
    by (simp add: ok bad e)
qed

theorem relay_failure_propagates_counterexample:
  "fst (relay_message_to_secondary (Some ''!1PWR01'')
     [init_connection EISCP, init_connection TCP,
      (init_connection TCP)\<lparr>connect_results := [Fail OSError]\<rparr>, init_connection TCP]) = Some OSError
   \<and> trace (fst (snd (relay_message_to_secondary (Some ''!1PWR01'')
     [init_connection EISCP, init_connection TCP,
      (init_connection TCP)\<lparr>connect_results := [Fail OSError]\<rparr>, init_connection TCP])) ! 3) = []"
  by (simp add: relay_message_to_secondary_def startswith_def send_message_to_receiver_def
      init_connection_def connect_to_receiver_def next_outcome_def prep_message_for_receiver_def
      send_raw_def)

text \<open>
  Claim C6 (as amended). A message that does not start with \<open>!1PWR\<close> causes no send and
  leaves every listener as it was. A message that starts with \<open>!1PWR\<close> is handed unmodified to
  \<open>send_message_to_receiver\<close> of every secondary, in list order (indices 1, 2, ... of the
  listeners), provided none of these sends raises; the primary is not sent to.
\<close>

theorem relay_filter:
  "(\<not> startswith msg ''!1PWR'' \<longrightarrow> relay_message_to_secondary (Some msg) ls = (None, ls, []))
   \<and> (startswith msg ''!1PWR'' \<longrightarrow>
        (\<forall>s\<in>set (drop 1 ls). fst (send_message_to_receiver msg s) = None) \<longrightarrow>
        relay_message_to_secondary (Some msg) ls =
          (None, take 1 ls @ map (\<lambda>s. snd (send_message_to_receiver msg s)) (drop 1 ls),
           [1..<length ls]))"
proof (intro conjI impI)
  assume "\<not> startswith msg ''!1PWR''"
  then show "relay_message_to_secondary (Some msg) ls = (None, ls, [])"
    by (simp add: relay_message_to_secondary_def)
next
  assume p: "startswith msg ''!1PWR''"
    and ok: "\<forall>s\<in>set (drop 1 ls). fst (send_message_to_receiver msg s) = None"
  have "[1..<1 + length (drop 1 ls)] = [1..<length ls]"
    by (cases ls) simp_all
  with p relay_loop_all_ok [OF ok, of 1]
  show "relay_message_to_secondary (Some msg) ls =
          (None, take 1 ls @ map (\<lambda>s. snd (send_message_to_receiver msg s)) (drop 1 ls),
           [1..<length ls])"
    by (simp add: relay_message_to_secondary_def)
qed

theorem relay_filter_witness:
  "relay_message_to_secondary (Some ''!1MVL20'')
     [init_connection EISCP, init_connection TCP, init_connection Serial] =
     (None, [init_connection EISCP, init_connection TCP, init_connection Serial], [])
   \<and> relay_message_to_secondary (Some ''!1PWR01'')
     [init_connection EISCP, init_connection TCP, init_connection Serial] =
     (None,
      [init_connection EISCP,
       (init_connection TCP)\<lparr>connected := True, handle := Some True,
          trace := [Connect, Write (''!1PWR01'' @ [CR])]\<rparr>,
       (init_connection Serial)\<lparr>connected := True, handle := Some True,
          trace := [Connect, Write (''!1PWR01'' @ [CR])]\<rparr>],
      [1, 2])"
proof -
  have ok: "send_message_to_receiver ''!1PWR01'' (init_connection TCP) =
              (None, (init_connection TCP)\<lparr>connected := True, handle := Some True,
                 trace := [Connect, Write (''!1PWR01'' @ [CR])]\<rparr>)"
     "send_message_to_receiver ''!1PWR01'' (init_connection Serial) =
              (None, (init_connection Serial)\<lparr>connected := True, handle := Some True,
                 trace := [Connect, Write (''!1PWR01'' @ [CR])]\<rparr>)"
    by (simp_all add: send_message_to_receiver_def init_connection_def connect_to_receiver_def
        next_outcome_def prep_message_for_receiver_def send_raw_def)
  have e: "[1..<3] = [1, 2::nat]" by (simp add: upt_conv_Cons)
  have a: "\<not> startswith ''!1MVL20'' ''!1PWR''" "startswith ''!1PWR01'' ''!1PWR''"
    by (simp_all add: startswith_def)
  show ?thesis
    using relay_filter [of "''!1MVL20''" "[init_connection EISCP, init_connection TCP, init_connection Serial]"]
      relay_filter [of "''!1PWR01''" "[init_connection EISCP, init_connection TCP, init_connection Serial]"]
    by (simp add: a ok e)
qed

theorem relay_filter_refused_connect_counterexample:
  "startswith ''!1PWR01'' ''!1PWR''
   \<and> relay_message_to_secondary (Some ''!1PWR01'')
       [init_connection EISCP,
        (init_connection TCP)\<lparr>connect_results := [Fail OSError]\<rparr>,
        init_connection Serial] =
      (Some OSError,
       [init_connection EISCP,
        (init_connection TCP)\<lparr>handle := Some False, trace := [Connect_failed]\<rparr>,
        init_connection Serial],
       [1])"
  by (simp add: relay_message_to_secondary_def startswith_def send_message_to_receiver_def
      init_connection_def connect_to_receiver_def next_outcome_def)

section \<open>Properties of the listen loop\<close>

text \<open>
  After the serial variant's disconnect the next pass does not reconnect and fails on the
  closed port; a socket variant that read a stream closed by the peer disconnects and would
  reconnect on the next pass. A \<^verbatim>\<open>TypeError\<close> from the binary reader, and the \<^verbatim>\<open>AttributeError\<close> of the
  relay callback called with no message, leave the loop.
\<close>

lemma listen_serial_after_disconnect:
  "listen_iteration (None :: (bytes option \<Rightarrow> unit \<Rightarrow> error option \<times> unit) option)
     (snd (disconnect ((init_connection Serial)\<lparr>connected := True, handle := Some True\<rparr>))) () =
   (Some TypeError,
    (init_connection Serial)\<lparr>connected := True, handle := Some False, trace := [Close]\<rparr>, ())"
  by (simp add: listen_iteration_def disconnect_def init_connection_def conn_check_for_message_def)

lemma listen_socket_after_eof:
  "listen_iteration (None :: (bytes option \<Rightarrow> unit \<Rightarrow> error option \<times> unit) option)
     ((init_connection TCP)\<lparr>connected := True, handle := Some True, inbound := [Eof]\<rparr>) () =
   (None, (init_connection TCP)\<lparr>inbound := [Eof], trace := [Close]\<rparr>, ())"
  by (simp add: listen_iteration_def disconnect_def init_connection_def conn_check_for_message_def
      check_for_message_def select_ready_def conn_get_message_def get_message_def
      get_message_loop.simps [of TCP "[Eof]"] get_one_byte_def recv1_def)

lemma listen_header_timeout_ends_listener:
  "fst (listen_iteration (None :: (bytes option \<Rightarrow> unit \<Rightarrow> error option \<times> unit) option)
     ((init_connection EISCP)\<lparr>connected := True, handle := Some True,
        inbound := map Data ''ISCP'' @ [Idle]\<rparr>) ()) = Some TypeError"
  by code_simp

lemma listen_none_message_ends_primary:
  "fst (listen_iteration
          (Some (\<lambda>message secondaries.
             case relay_message_to_secondary message (init_connection TCP # secondaries) of
               (r, ls, called) \<Rightarrow> (r, drop 1 ls)))
          ((init_connection TCP)\<lparr>connected := True, handle := Some True,
             inbound := map Data ''!1PWR01''\<rparr>)
          [init_connection TCP]) = Some AttributeError"
  by code_simp

end
